theory Spec2Isabelle
  imports Main "HOL-Library.Word"
begin

section \<open>Common types\<close>

type_synonym byte = "8 word"
type_synonym bytes = "byte list"
type_synonym int64 = "64 word"

section \<open>The in-memory log client (TestTrillianClient, comments\_test.go)\<close>

text \<open>
  A \<open>*trillian.LogLeaf\<close> with the four fields the client reads and writes. Leaves are
  modelled as values: every pointer handed to \<open>leavesAppend\<close> is taken to be a fresh
  object, distinct from the others of the batch and from the leaves already stored.
\<close>

record LogLeaf =
  LeafValue :: bytes
  ExtraData :: bytes
  MerkleLeafHash :: bytes
  LeafIndex :: int64

datatype TreeState = TreeState_ACTIVE | TreeState_FROZEN
datatype TreeType = TreeType_LOG | TreeType_MAP

record Tree =
  TreeId :: int64
  TreeState :: TreeState
  TreeType :: TreeType
  DisplayName :: string
  Description :: string
  PrivateKey :: bytes

text \<open>
  The client state. \<open>trees\<close> is the Go map \<open>map[int64]*trillian.Tree\<close>, kept as an
  association list with distinct keys whose order stands for the (unspecified) order in
  which \<open>range\<close> visits the map; \<open>leaves\<close> is \<open>map[int64][]*trillian.LogLeaf\<close>.
\<close>

record TestTrillianClient =
  trees :: "(int64 \<times> Tree) list"
  leaves :: "int64 \<rightharpoonup> LogLeaf list"

definition wf_client :: "TestTrillianClient \<Rightarrow> bool" where
  "wf_client t = distinct (map fst (trees t))"

text \<open>Reading \<open>t.leaves[treeID]\<close>: a missing key yields the nil slice.\<close>

definition leaves_of :: "TestTrillianClient \<Rightarrow> int64 \<Rightarrow> LogLeaf list" where
  "leaves_of t treeID = (case leaves t treeID of None \<Rightarrow> [] | Some ls \<Rightarrow> ls)"

text \<open>
  \<open>treesAll\<close>: \<open>make([]*trillian.Tree, len(t.trees))\<close> allocates \<open>len(t.trees)\<close> nil
  pointers, and the loop appends every tree of the map behind them. A tree pointer is a
  \<open>Tree option\<close>, \<open>None\<close> being nil. The second component is the returned error.
\<close>

datatype client_error = TreeIDNotFound | NoLeafData int64

definition treesAll :: "TestTrillianClient \<Rightarrow> Tree option list \<times> client_error option" where
  "treesAll t =
     (let trees0 = replicate (length (trees t)) None;
          trees1 = foldl (\<lambda>acc kv. acc @ [Some (snd kv)]) trees0 (trees t)
      in (trees1, None))"

text \<open>
  \<open>leavesAppend\<close>. The start index is read once, before the loop; the loop body stores it
  in the leaf, sets the leaf hash (\<open>H\<close> is \<open>MerkleLeafHash\<close> of the tlog package), appends
  the leaf to \<open>t.leaves[treeID]\<close> and to the queued result. The loop does not change
  \<open>index\<close>.
\<close>

definition last_index :: "TestTrillianClient \<Rightarrow> int64 \<Rightarrow> int64" where
  "last_index t treeID =
     (if length (leaves_of t treeID) > 0
      then LeafIndex (leaves_of t treeID ! (length (leaves_of t treeID) - 1)) + 1
      else 0)"

fun append_loop ::
  "(bytes \<Rightarrow> bytes) \<Rightarrow> int64 \<Rightarrow> int64 \<Rightarrow> LogLeaf list \<Rightarrow>
   TestTrillianClient \<times> LogLeaf list \<Rightarrow> TestTrillianClient \<times> LogLeaf list" where
  "append_loop H treeID index [] (t, queued) = (t, queued)"
| "append_loop H treeID index (l # ls) (t, queued) =
     (let l' = l\<lparr>LeafIndex := index, MerkleLeafHash := H (LeafValue l)\<rparr>;
          t' = t\<lparr>leaves := (leaves t)(treeID \<mapsto> leaves_of t treeID @ [l'])\<rparr>
      in append_loop H treeID index ls (t', queued @ [l']))"

definition leavesAppend ::
  "(bytes \<Rightarrow> bytes) \<Rightarrow> TestTrillianClient \<Rightarrow> int64 \<Rightarrow> LogLeaf list \<Rightarrow>
   TestTrillianClient \<times> LogLeaf list" where
  "leavesAppend H t treeID ls = append_loop H treeID (last_index t treeID) ls (t, [])"

text \<open>
  \<open>leavesByRange\<close>. The loop collects the leaves with \<open>LeafIndex >= startIndex\<close> while
  fewer than \<open>count\<close> have been taken (signed 64-bit comparisons); the function then
  returns \<open>nil, nil\<close>.
\<close>

fun range_loop :: "int64 \<Rightarrow> int64 \<Rightarrow> LogLeaf list \<Rightarrow> int64 \<times> LogLeaf list \<Rightarrow> int64 \<times> LogLeaf list" where
  "range_loop startIndex count [] (c, acc) = (c, acc)"
| "range_loop startIndex count (leaf # rest) (c, acc) =
     (if startIndex \<le>s LeafIndex leaf \<and> c <s count
      then range_loop startIndex count rest (c + 1, acc @ [leaf])
      else range_loop startIndex count rest (c, acc))"

definition leavesByRange ::
  "TestTrillianClient \<Rightarrow> int64 \<Rightarrow> int64 \<Rightarrow> int64 \<Rightarrow> client_error + LogLeaf list" where
  "leavesByRange t treeID startIndex count =
     (case leaves t treeID of
        None \<Rightarrow> Inl (NoLeafData treeID)
      | Some stored \<Rightarrow>
          (let collected = snd (range_loop startIndex count stored (0, []))
           in Inr []))"

text \<open>The leaves with index in \<open>[startIndex, startIndex + count)\<close>, as the contract words it.\<close>

definition in_range :: "int64 \<Rightarrow> int64 \<Rightarrow> LogLeaf \<Rightarrow> bool" where
  "in_range startIndex count l \<longleftrightarrow>
     sint startIndex \<le> sint (LeafIndex l) \<and> sint (LeafIndex l) < sint startIndex + sint count"

text \<open>A new client, and two leaves to append.\<close>

definition emptyClient :: TestTrillianClient where
  "emptyClient = \<lparr>trees = [], leaves = Map.empty\<rparr>"

definition mkLeaf :: "bytes \<Rightarrow> LogLeaf" where
  "mkLeaf v = \<lparr>LeafValue = v, ExtraData = [], MerkleLeafHash = [], LeafIndex = 0\<rparr>"

definition tree7 :: Tree where
  "tree7 = \<lparr>TreeId = 7, TreeState = TreeState_ACTIVE, TreeType = TreeType_LOG,
            DisplayName = [], Description = [], PrivateKey = []\<rparr>"

text \<open>A client holding the tree 7, and one whose tree 1 received a single leaf.\<close>

definition client1 :: TestTrillianClient where
  "client1 = \<lparr>trees = [(7, tree7)], leaves = [7 \<mapsto> []]\<rparr>"

definition client2 :: TestTrillianClient where
  "client2 = fst (leavesAppend (\<lambda>v. v) emptyClient 1 [mkLeaf [1]])"

section \<open>The blob store of the politeiatlog tool (fileSystem)\<close>

text \<open>
  Go's \<open>error\<close> values that \<open>fileSystem.Get\<close> can see or build: the errors of
  \<open>ioutil.ReadFile\<close> (file missing, or any other I/O failure with its message),
  \<open>store.ErrNotFound\<close>, and the wrapped error of \<open>fmt.Errorf("get %v: %v", key, err)\<close>.
\<close>

datatype error =
    PathError_NotExist
  | PathError_IO string
  | ErrNotFound
  | GetError string error

definition IsNotExist :: "error \<Rightarrow> bool" where
  "IsNotExist err \<longleftrightarrow> err = PathError_NotExist"

text \<open>
  The disk: what \<open>ioutil.ReadFile\<close> yields for a path. \<open>fileSystem\<close> has the one field
  \<open>root\<close>; \<open>filepath.Join\<close> is modelled for a plain key (no \<open>.\<close>, \<open>..\<close> or doubled
  separators to clean).
\<close>

type_synonym disk = "string \<Rightarrow> error + bytes"

record fileSystem =
  root :: string

definition Join :: "string \<Rightarrow> string \<Rightarrow> string" where
  "Join dir name = dir @ ''/'' @ name"

definition ReadFile :: "disk \<Rightarrow> string \<Rightarrow> bytes \<times> error option" where
  "ReadFile d path = (case d path of Inl err \<Rightarrow> ([], Some err) | Inr b \<Rightarrow> (b, None))"

text \<open>
  The body of the loop of \<open>Get\<close>, statement by statement, with what it does next:
  return an error, \<open>continue\<close> without storing, or store the blob under the key. The
  first \<open>if err != nil\<close> returns on both of its branches; the second \<open>if err != nil\<close>,
  whose \<open>ErrNotFound\<close> branch would skip the key, is kept as the source has it.
\<close>

datatype step = Return error | Continue | Store bytes

definition Get_body :: "disk \<Rightarrow> fileSystem \<Rightarrow> string \<Rightarrow> step" where
  "Get_body d f key =
     (case ReadFile d (Join (root f) key) of (b, err) \<Rightarrow>
        if err \<noteq> None then
          (if IsNotExist (the err) then Return ErrNotFound else Return (the err))
        else if err \<noteq> None then
          (if the err = ErrNotFound then Continue else Return (GetError key (the err)))
        else Store b)"

fun Get_loop ::
  "disk \<Rightarrow> fileSystem \<Rightarrow> string list \<Rightarrow> (string \<rightharpoonup> bytes) \<Rightarrow> error + (string \<rightharpoonup> bytes)" where
  "Get_loop d f [] blobs = Inr blobs"
| "Get_loop d f (key # keys) blobs =
     (case Get_body d f key of
        Return err \<Rightarrow> Inl err
      | Continue \<Rightarrow> Get_loop d f keys blobs
      | Store b \<Rightarrow> Get_loop d f keys (blobs(key \<mapsto> b)))"

definition Get :: "disk \<Rightarrow> fileSystem \<Rightarrow> string list \<Rightarrow> error + (string \<rightharpoonup> bytes)" where
  "Get d f keys = Get_loop d f keys Map.empty"

text \<open>
  \<open>Put\<close> is a stub: it returns \<open>[]string{}, nil\<close> and touches nothing. The result is the
  disk afterwards, the returned keys and the returned error.
\<close>

definition Put :: "disk \<Rightarrow> fileSystem \<Rightarrow> bytes list \<Rightarrow> disk \<times> string list \<times> error option" where
  "Put d f blobs = (d, [], None)"

text \<open>An empty store directory, and one holding the blob \<open>k1\<close>.\<close>

definition emptyDisk :: disk where
  "emptyDisk = (\<lambda>path. Inl PathError_NotExist)"

definition toolStore :: fileSystem where
  "toolStore = \<lparr>root = ''data''\<rparr>"

definition disk1 :: disk where
  "disk1 = emptyDisk(''data/k1'' := Inr [1, 2, 3])"

section \<open>The encryption key (encryptionkey.go)\<close>

text \<open>
  \<open>EncryptionKey\<close> holds a pointer \<open>key *[32]byte\<close>. The arrays live in a heap, from
  addresses to their bytes, so that zeroing through the pointer is seen by every holder
  of the array; the pointer is an address or nil (\<open>None\<close>). The reader/writer lock is
  not modelled: each operation runs alone.
\<close>

type_synonym addr = nat
type_synonym heap = "addr \<Rightarrow> bytes"

record EncryptionKey =
  key :: "addr option"

text \<open>How a call can fail: a run-time panic, or a returned error.\<close>

datatype fault = Panic_NilDereference | Err string

definition NewEncryptionKey :: "addr option \<Rightarrow> EncryptionKey" where
  "NewEncryptionKey k = \<lparr>key = k\<rparr>"

text \<open>
  Modelled from the spec: \<open>util.Zero\<close> of the repository's \<open>util\<close> package is not
  among the sources verified here; the spec has the shutdown path zero the key, so it
  overwrites every byte of the slice with 0.
\<close>

definition Zero :: "bytes \<Rightarrow> bytes" where
  "Zero b = replicate (length b) 0"

text \<open>
  Modelled from the spec: \<open>sbox.Encrypt\<close> and \<open>sbox.Decrypt\<close> belong to the package
  \<open>sbox\<close>, which is not among the sources verified here. They receive the key as a
  pointer and read the key through it to seal or open the box, which panics on a nil pointer; the spec
  has use of the key after zeroing fail loudly rather than operate on a zeroed key.
  \<open>Decrypt\<close> first rejects a packed blob whose header is malformed, with an error. The
  cipher (\<open>seal\<close>, \<open>opn\<close>) and the header check (\<open>hdr_ok\<close>) are parameters.
\<close>

definition sbox_Encrypt ::
  "(bytes \<Rightarrow> 32 word \<Rightarrow> bytes \<Rightarrow> fault + bytes) \<Rightarrow> heap \<Rightarrow> 32 word \<Rightarrow> addr option \<Rightarrow> bytes \<Rightarrow>
   fault + bytes" where
  "sbox_Encrypt seal h version k blob =
     (case k of None \<Rightarrow> Inl Panic_NilDereference | Some a \<Rightarrow> seal (h a) version blob)"

text \<open>
  Modelled from the spec: \<open>sbox.Decrypt\<close>, as described above: the header check
  first, then the key is read through the pointer.
\<close>

definition sbox_Decrypt ::
  "(bytes \<Rightarrow> bool) \<Rightarrow> (bytes \<Rightarrow> bytes \<Rightarrow> fault + bytes \<times> 32 word) \<Rightarrow> heap \<Rightarrow> addr option \<Rightarrow> bytes \<Rightarrow>
   fault + bytes \<times> 32 word" where
  "sbox_Decrypt hdr_ok opn h k packed =
     (if \<not> hdr_ok packed then Inl (Err ''invalid header'')
      else case k of None \<Rightarrow> Inl Panic_NilDereference | Some a \<Rightarrow> opn (h a) packed)"

text \<open>\<open>Encrypt\<close> and \<open>Decrypt\<close> hand \<open>e.key\<close> to the box as it is.\<close>

definition Encrypt ::
  "(bytes \<Rightarrow> 32 word \<Rightarrow> bytes \<Rightarrow> fault + bytes) \<Rightarrow> heap \<Rightarrow> EncryptionKey \<Rightarrow> 32 word \<Rightarrow> bytes \<Rightarrow>
   fault + bytes" where
  "Encrypt seal h e version blob = sbox_Encrypt seal h version (key e) blob"

definition Decrypt ::
  "(bytes \<Rightarrow> bool) \<Rightarrow> (bytes \<Rightarrow> bytes \<Rightarrow> fault + bytes \<times> 32 word) \<Rightarrow> heap \<Rightarrow> EncryptionKey \<Rightarrow> bytes \<Rightarrow>
   fault + bytes \<times> 32 word" where
  "Decrypt hdr_ok opn h e blob = sbox_Decrypt hdr_ok opn h (key e) blob"

text \<open>
  \<open>zero\<close>: \<open>util.Zero(e.key[:])\<close> slices the array behind the pointer, which panics when
  the pointer is nil; then \<open>e.key = nil\<close>.
\<close>

definition zero :: "heap \<Rightarrow> EncryptionKey \<Rightarrow> fault + heap \<times> EncryptionKey" where
  "zero h e =
     (case key e of
        None \<Rightarrow> Inl Panic_NilDereference
      | Some a \<Rightarrow> Inr (h(a := Zero (h a)), e\<lparr>key := None\<rparr>))"

text \<open>A heap with one 32-byte key at address 0, and a toy cipher.\<close>

definition heap0 :: heap where
  "heap0 = (\<lambda>a. [])(0 := replicate 32 7)"

definition seal0 :: "bytes \<Rightarrow> 32 word \<Rightarrow> bytes \<Rightarrow> fault + bytes" where
  "seal0 k version blob = Inr (k @ blob)"

definition opn0 :: "bytes \<Rightarrow> bytes \<Rightarrow> fault + bytes \<times> 32 word" where
  "opn0 k packed = Inr (drop (length k) packed, 1)"

section \<open>The plugin inventory of politeiawww (getPluginInventory)\<close>

record pd_PluginSetting =
  pd_Key :: string
  pd_Value :: string

record pd_Plugin =
  pd_ID :: string
  pd_Version :: string
  pd_Settings :: "pd_PluginSetting list"

record pluginSetting =
  Key :: string
  Value :: string

record plugin =
  ID :: string
  Version :: string
  Settings :: "pluginSetting list"

definition convertPluginSettingFromPD :: "pd_PluginSetting \<Rightarrow> pluginSetting" where
  "convertPluginSettingFromPD ps = \<lparr>Key = pd_Key ps, Value = pd_Value ps\<rparr>"

definition convertPluginFromPD :: "pd_Plugin \<Rightarrow> plugin" where
  "convertPluginFromPD p =
     (let ps = foldl (\<lambda>acc v. acc @ [convertPluginSettingFromPD v]) [] (pd_Settings p)
      in \<lparr>ID = pd_ID p, Version = pd_Version p, Settings = ps\<rparr>)"

text \<open>
  \<open>time.Duration\<close> counts nanoseconds. \<open>maxRetries\<close> and the loop counter are Go
  \<open>int\<close>s, 64 bits wide.
\<close>

definition Second :: int where
  "Second = 1000000000"

definition sleepInterval :: int where
  "sleepInterval = 5 * Second"

definition maxRetries :: int64 where
  "maxRetries = 1000"

datatype inventory_error = MaxRetriesExceeded

text \<open>
  The loop of \<open>getPluginInventory\<close>. The remote call \<open>p.pluginInventory()\<close> is the
  environment: \<open>env k\<close> is what the call made when \<open>retries = k\<close> answers, an error
  message or the inventory. The state carries the loop variables and the list of the
  durations slept so far; the result is the returned value with that list.
\<close>

function getPluginInventory_loop ::
  "(nat \<Rightarrow> string + pd_Plugin list) \<Rightarrow> int64 \<Rightarrow> bool \<Rightarrow> plugin list \<Rightarrow> int list \<Rightarrow>
   (inventory_error + plugin list) \<times> int list" where
  "getPluginInventory_loop env retries done plugins slept =
     (if done then (Inr plugins, slept)
      else if retries = maxRetries then (Inl MaxRetriesExceeded, slept)
      else case env (unat retries) of
             Inl err \<Rightarrow> getPluginInventory_loop env (retries + 1) False plugins (slept @ [sleepInterval])
           | Inr reply \<Rightarrow> getPluginInventory_loop env (retries + 1) True
                        (foldl (\<lambda>acc v. acc @ [convertPluginFromPD v]) plugins reply) slept)"
  by pat_completeness auto
termination
proof (relation "measure (\<lambda>(env, retries, done, plugins, slept).
                   if done then 0 else 1 + unat (maxRetries - retries))")
  show "wf (measure (\<lambda>(env, retries, done, plugins, slept).
              if done then 0 else 1 + unat (maxRetries - retries)))"
    by simp
next
  fix env :: "nat \<Rightarrow> string + pd_Plugin list" and retries :: int64 and fin :: bool
    and plugins :: "plugin list" and slept :: "int list" and err :: string
  assume nf: "\<not> fin" and ne: "retries \<noteq> maxRetries"
  from ne have nz: "maxRetries - retries \<noteq> 0" by simp
  have eq: "maxRetries - (retries + 1) = (maxRetries - retries) - 1" by simp
  have "unat ((maxRetries - retries) - 1) = unat (maxRetries - retries) - 1"
    using nz by (rule unat_minus_one)
  moreover have "unat (maxRetries - retries) \<noteq> 0"
    using nz by (simp add: unat_eq_0)
  ultimately have "unat (maxRetries - (retries + 1)) < unat (maxRetries - retries)"
    unfolding eq by arith
  then show "((env, retries + 1, False, plugins, slept @ [sleepInterval]),
              (env, retries, fin, plugins, slept))
             \<in> measure (\<lambda>(env, retries, done, plugins, slept).
                  if done then 0 else 1 + unat (maxRetries - retries))"
    using nf by simp
next
  fix env :: "nat \<Rightarrow> string + pd_Plugin list" and retries :: int64 and fin :: bool
    and plugins :: "plugin list" and slept :: "int list" and reply :: "pd_Plugin list"
  assume "\<not> fin"
  then show "((env, retries + 1, True,
               foldl (\<lambda>acc v. acc @ [convertPluginFromPD v]) plugins reply, slept),
              (env, retries, fin, plugins, slept))
             \<in> measure (\<lambda>(env, retries, done, plugins, slept).
                  if done then 0 else 1 + unat (maxRetries - retries))"
    by simp
qed

declare getPluginInventory_loop.simps [simp del]

definition getPluginInventory ::
  "(nat \<Rightarrow> string + pd_Plugin list) \<Rightarrow> (inventory_error + plugin list) \<times> int list" where
  "getPluginInventory env = getPluginInventory_loop env 0 False [] []"

text \<open>
  Delays that grow from one retry to the next, as every exponential backoff makes them.
\<close>

fun backoff_grows :: "int list \<Rightarrow> bool" where
  "backoff_grows (a # b # rest) = (a < b \<and> backoff_grows (b # rest))"
| "backoff_grows _ = True"

text \<open>An inventory of one plugin, and a politeiad that answers at the third call.\<close>

definition inv0 :: "pd_Plugin list" where
  "inv0 = [\<lparr>pd_ID = ''comments'', pd_Version = ''1'',
            pd_Settings = [\<lparr>pd_Key = ''datadir'', pd_Value = ''/tmp''\<rparr>]\<rparr>]"

definition env_third :: "nat \<Rightarrow> string + pd_Plugin list" where
  "env_third k = (if k < 2 then Inl ''connection refused'' else Inr inv0)"

section \<open>Bundle verification (politeiaverify)\<close>

text \<open>
  The bundle types of the two versions of the tool: \<open>record\<close> with \<open>files\<close> and
  \<open>metadata\<close> (the record verifier), \<open>proposal\<close> with \<open>pi.File\<close> and \<open>pi.Metadata\<close>
  (the proposal verifier). A Go string and a byte slice are both a \<open>string\<close> here.
\<close>

record files =
  f_Name :: string
  f_Digest :: string
  f_Payload :: string

record metadata =
  md_Hint :: string
  md_Digest :: string
  md_Payload :: string

record censorshipRecord =
  cr_Token :: string
  cr_Merkle :: string
  cr_Signature :: string

record record_bundle =
  r_ServerPublicKey :: string
  r_PublicKey :: string
  r_Signature :: string
  r_CensorshipRecord :: censorshipRecord
  r_Files :: "files list"
  r_Metadata :: "metadata list"

record pi_File =
  pf_Name :: string
  pf_MIME :: string
  pf_Digest :: string
  pf_Payload :: string

record pi_Metadata =
  pm_Hint :: string
  pm_Digest :: string
  pm_Payload :: string

record proposal =
  p_PublicKey :: string
  p_Signature :: string
  p_CensorshipRecord :: censorshipRecord
  p_Files :: "pi_File list"
  p_Metadata :: "pi_Metadata list"
  p_ServerPublicKey :: string

datatype verify_error =
    LibraryError string
  | InvalidDigest string
  | FileDigestsDoNotMatch string
  | MetadataDigestsDoNotMatch string
  | MerkleRootsDoNotMatch string string
  | InvalidProposalSignature string
  | InvalidRecordSignature string
  | InvalidCensorshipRecordSignature string
  | Panic_NilRoot

text \<open>
  The library functions the verifiers call, as parameters: JSON decoding of the two
  bundles, \<open>base64.StdEncoding.DecodeString\<close>, \<open>util.Digest\<close> (SHA-256),
  \<open>util.ConvertDigest\<close> (the digest and \<open>ok\<close>), \<open>merkle.Root\<close> of dcrtime (a pointer,
  \<open>None\<close> when nil), \<open>hex.EncodeToString\<close>, \<open>util.IdentityFromString\<close>,
  \<open>util.ConvertSignature\<close> (the signature and the error) and the Ed25519 check
  \<open>VerifyMessage\<close> of an identity on a message and a signature.
\<close>

record lib =
  Unmarshal_record :: "string \<Rightarrow> verify_error + record_bundle"
  Unmarshal_proposal :: "string \<Rightarrow> verify_error + proposal"
  DecodeString :: "string \<Rightarrow> verify_error + string"
  Digest :: "string \<Rightarrow> string"
  ConvertDigest :: "string \<Rightarrow> string \<times> bool"
  merkle_Root :: "string list \<Rightarrow> string option"
  EncodeToString :: "string \<Rightarrow> string"
  IdentityFromString :: "string \<Rightarrow> verify_error + string"
  ConvertSignature :: "string \<Rightarrow> string \<times> verify_error option"
  VerifyMessage :: "string \<Rightarrow> string \<Rightarrow> string \<Rightarrow> bool"

text \<open>\<open>copy(sha[:], d)\<close> into a fresh \<open>[sha256.Size]byte\<close>: the first 32 bytes, zero-padded.\<close>

definition copy32 :: "string \<Rightarrow> string" where
  "copy32 d = take 32 (d @ replicate 32 (CHR 0x00))"

text \<open>
  \<open>merkleRoot\<close> of the record verifier: the two loops append the digest of each decoded
  payload and compare it with the digest the bundle states; the root of all digests is
  returned in hex. \<open>merkle.Root(digests)[:]\<close> panics on a nil root.
\<close>

fun files_loop :: "lib \<Rightarrow> files list \<Rightarrow> string list \<Rightarrow> verify_error + string list" where
  "files_loop L [] digests = Inr digests"
| "files_loop L (f # fs) digests =
     (case DecodeString L (f_Payload f) of
        Inl err \<Rightarrow> Inl err
      | Inr b \<Rightarrow>
          (let d = Digest L b;
               sha = copy32 d;
               digests' = digests @ [sha]
           in case ConvertDigest L (f_Digest f) of (cd, ok) \<Rightarrow>
                if \<not> ok then Inl (InvalidDigest (f_Digest f))
                else if d \<noteq> cd then Inl (FileDigestsDoNotMatch (f_Name f))
                else files_loop L fs digests'))"

fun metadata_loop :: "lib \<Rightarrow> metadata list \<Rightarrow> string list \<Rightarrow> verify_error + string list" where
  "metadata_loop L [] digests = Inr digests"
| "metadata_loop L (md # mds) digests =
     (case DecodeString L (md_Payload md) of
        Inl err \<Rightarrow> Inl err
      | Inr b \<Rightarrow>
          (let d = Digest L b;
               sha = copy32 d;
               digests' = digests @ [sha]
           in case ConvertDigest L (md_Digest md) of (cd, ok) \<Rightarrow>
                if \<not> ok then Inl (InvalidDigest (md_Digest md))
                else if d \<noteq> cd then Inl (MetadataDigestsDoNotMatch (md_Hint md))
                else metadata_loop L mds digests'))"

definition merkleRoot :: "lib \<Rightarrow> files list \<Rightarrow> metadata list \<Rightarrow> verify_error + string" where
  "merkleRoot L fs mds =
     (case files_loop L fs [] of
        Inl err \<Rightarrow> Inl err
      | Inr digests \<Rightarrow>
          (case metadata_loop L mds digests of
             Inl err \<Rightarrow> Inl err
           | Inr digests' \<Rightarrow>
               (case merkle_Root L digests' of
                  None \<Rightarrow> Inl Panic_NilRoot
                | Some r \<Rightarrow> Inr (EncodeToString L r))))"

text \<open>
  The record verifier, \<open>_main\<close> from the bundle's bytes on. The error of the first
  \<open>util.ConvertSignature\<close> is not looked at. The result is the returned error.
\<close>

definition main_record :: "lib \<Rightarrow> string \<Rightarrow> verify_error option" where
  "main_record L payload =
     (case Unmarshal_record L payload of
        Inl err \<Rightarrow> Some err
      | Inr rec \<Rightarrow>
          (let merkle = cr_Merkle (r_CensorshipRecord rec) in
           case merkleRoot L (r_Files rec) (r_Metadata rec) of
             Inl err \<Rightarrow> Some err
           | Inr m \<Rightarrow>
               if m \<noteq> merkle then Some (MerkleRootsDoNotMatch m merkle)
               else case IdentityFromString L (r_PublicKey rec) of
                 Inl err \<Rightarrow> Some err
               | Inr ident \<Rightarrow>
                   (case ConvertSignature L (r_Signature rec) of (sig, err) \<Rightarrow>
                      if \<not> VerifyMessage L ident merkle sig
                      then Some (InvalidRecordSignature (r_Signature rec))
                      else case IdentityFromString L (r_ServerPublicKey rec) of
                        Inl err \<Rightarrow> Some err
                      | Inr ident \<Rightarrow>
                          (case ConvertSignature L (cr_Signature (r_CensorshipRecord rec)) of
                             (sig, err) \<Rightarrow>
                               if err \<noteq> None then err
                               else if \<not> VerifyMessage L ident
                                          (merkle @ cr_Token (r_CensorshipRecord rec)) sig
                               then Some (InvalidCensorshipRecordSignature
                                            (cr_Signature (r_CensorshipRecord rec)))
                               else None))))"

text \<open>
  Modelled from the spec: \<open>wwwutil.MerkleRoot\<close> of the repository's \<open>politeiawww/util\<close>
  package is not among the sources verified here. The spec: the merkle field is the
  classical Merkle root computed over the SHA-256 digests of the submitted files and metadata, in hex; it is
  computed as \<open>merkleRoot\<close> of \<open>cmd/shared/proposalinventory.go\<close> computes it.
\<close>

fun payload_digests :: "lib \<Rightarrow> string list \<Rightarrow> string list \<Rightarrow> verify_error + string list" where
  "payload_digests L [] digests = Inr digests"
| "payload_digests L (pl # pls) digests =
     (case DecodeString L pl of
        Inl err \<Rightarrow> Inl err
      | Inr b \<Rightarrow> payload_digests L pls (digests @ [copy32 (Digest L b)]))"

text \<open>
  Modelled from the spec: \<open>wwwutil.MerkleRoot\<close>, the hex of the root over the digests
  of the file payloads followed by those of the metadata payloads.
\<close>

definition wwwutil_MerkleRoot :: "lib \<Rightarrow> pi_File list \<Rightarrow> pi_Metadata list \<Rightarrow> verify_error + string" where
  "wwwutil_MerkleRoot L fs mds =
     (case payload_digests L (map pf_Payload fs) [] of
        Inl err \<Rightarrow> Inl err
      | Inr digests \<Rightarrow>
          (case payload_digests L (map pm_Payload mds) digests of
             Inl err \<Rightarrow> Inl err
           | Inr digests' \<Rightarrow>
               (case merkle_Root L digests' of
                  None \<Rightarrow> Inl Panic_NilRoot
                | Some r \<Rightarrow> Inr (EncodeToString L r))))"

text \<open>\<open>verifyProposal\<close>; the result is the returned error.\<close>

definition verifyProposal :: "lib \<Rightarrow> string \<Rightarrow> verify_error option" where
  "verifyProposal L payload =
     (case Unmarshal_proposal L payload of
        Inl err \<Rightarrow> Some err
      | Inr prop \<Rightarrow>
          (case wwwutil_MerkleRoot L (p_Files prop) (p_Metadata prop) of
             Inl err \<Rightarrow> Some err
           | Inr merkle \<Rightarrow>
               if merkle \<noteq> cr_Merkle (p_CensorshipRecord prop)
               then Some (MerkleRootsDoNotMatch (cr_Merkle (p_CensorshipRecord prop)) merkle)
               else case IdentityFromString L (p_PublicKey prop) of
                 Inl err \<Rightarrow> Some err
               | Inr ident \<Rightarrow>
                   (case ConvertSignature L (p_Signature prop) of (sig, err) \<Rightarrow>
                      if err \<noteq> None then err
                      else if \<not> VerifyMessage L ident merkle sig
                      then Some (InvalidProposalSignature (p_Signature prop))
                      else case IdentityFromString L (p_ServerPublicKey prop) of
                        Inl err \<Rightarrow> Some err
                      | Inr ident \<Rightarrow>
                          (case ConvertSignature L (cr_Signature (p_CensorshipRecord prop)) of
                             (sig, err) \<Rightarrow>
                               if err \<noteq> None then err
                               else if \<not> VerifyMessage L ident
                                          (merkle @ cr_Token (p_CensorshipRecord prop)) sig
                               then Some (InvalidCensorshipRecordSignature
                                            (cr_Signature (p_CensorshipRecord prop)))
                               else None))))"

text \<open>
  The digest of one payload as the root is computed over it, and what the two checks of
  the claim say of a bundle: the merkle field is the hex of the root over the digests of
  all file and metadata payloads, and the censorship record's signature verifies on
  merkle followed by token under the server's key.
\<close>

definition payload_digest :: "lib \<Rightarrow> string \<Rightarrow> string" where
  "payload_digest L pl = (case DecodeString L pl of Inl err \<Rightarrow> [] | Inr b \<Rightarrow> copy32 (Digest L b))"

definition merkle_matches :: "lib \<Rightarrow> string list \<Rightarrow> censorshipRecord \<Rightarrow> bool" where
  "merkle_matches L payloads cr =
     (case merkle_Root L (map (payload_digest L) payloads) of
        None \<Rightarrow> False
      | Some r \<Rightarrow> cr_Merkle cr = EncodeToString L r)"

definition server_signature_verifies :: "lib \<Rightarrow> string \<Rightarrow> censorshipRecord \<Rightarrow> bool" where
  "server_signature_verifies L serverKey cr =
     (case IdentityFromString L serverKey of
        Inl err \<Rightarrow> False
      | Inr ident \<Rightarrow>
          (case ConvertSignature L (cr_Signature cr) of (sig, err) \<Rightarrow>
             err = None \<and> VerifyMessage L ident (cr_Merkle cr @ cr_Token cr) sig))"

text \<open>
  A toy library (the digest of a payload is the payload, a signature is the key followed
  by the message) and a bundle of one file and one metadata stream that it accepts.
\<close>

definition prop0 :: proposal where
  "prop0 = \<lparr>p_PublicKey = ''U'', p_Signature = ''Uam'',
            p_CensorshipRecord = \<lparr>cr_Token = ''t'', cr_Merkle = ''am'', cr_Signature = ''Samt''\<rparr>,
            p_Files = [\<lparr>pf_Name = ''index.md'', pf_MIME = ''text/plain'', pf_Digest = ''a'', pf_Payload = ''a''\<rparr>],
            p_Metadata = [\<lparr>pm_Hint = ''proposalmetadata'', pm_Digest = ''m'', pm_Payload = ''m''\<rparr>],
            p_ServerPublicKey = ''S''\<rparr>"

definition rec0 :: record_bundle where
  "rec0 = \<lparr>r_ServerPublicKey = ''S'', r_PublicKey = ''U'', r_Signature = ''Uam'',
           r_CensorshipRecord = \<lparr>cr_Token = ''t'', cr_Merkle = ''am'', cr_Signature = ''Samt''\<rparr>,
           r_Files = [\<lparr>f_Name = ''index.md'', f_Digest = ''a'', f_Payload = ''a''\<rparr>],
           r_Metadata = [\<lparr>md_Hint = ''proposalmetadata'', md_Digest = ''m'', md_Payload = ''m''\<rparr>]\<rparr>"

definition lib0 :: lib where
  "lib0 = \<lparr>Unmarshal_record = (\<lambda>s. if s = ''bundle'' then Inr rec0 else Inl (LibraryError ''json'')),
           Unmarshal_proposal = (\<lambda>s. if s = ''bundle'' then Inr prop0 else Inl (LibraryError ''json'')),
           DecodeString = Inr,
           Digest = (\<lambda>b. b),
           ConvertDigest = (\<lambda>s. (s, True)),
           merkle_Root = (\<lambda>ds. if ds = [] then None else Some (concat (map (take 1) ds))),
           EncodeToString = (\<lambda>b. b),
           IdentityFromString = Inr,
           ConvertSignature = (\<lambda>s. (s, None)),
           VerifyMessage = (\<lambda>ident msg sig. sig = ident @ msg)\<rparr>"

section \<open>The comments plugin (command handlers, modelled from the spec)\<close>

text \<open>
  The payloads are those the tests build: \<open>comments.New\<close>, \<open>comments.Edit\<close>,
  \<open>comments.Del\<close> and \<open>comments.Vote\<close> share \<open>State\<close>, \<open>Token\<close>, \<open>PublicKey\<close> and
  \<open>Signature\<close>, and all but \<open>Del\<close> name a \<open>UserID\<close> (unused for \<open>Del\<close>); the
  remaining fields are the command's own: \<open>New parentID comment\<close>,
  \<open>Edit parentID commentID comment\<close>, \<open>Del commentID reason\<close> and
  \<open>Vote commentID vote\<close>. Identifiers are \<open>uint32\<close> in the source and natural numbers
  here.
\<close>

datatype StateT = StateInvalid | StateUnvetted | StateVetted

datatype VoteT = VoteInvalid | VoteDownvote | VoteUpvote

datatype ErrorStatusT =
    ErrorStatusStateInvalid
  | ErrorStatusTokenInvalid
  | ErrorStatusPublicKeyInvalid
  | ErrorStatusSignatureInvalid
  | ErrorStatusRecordNotFound
  | ErrorStatusCommentNotFound
  | ErrorStatusCommentTextInvalid
  | ErrorStatusParentIDInvalid
  | ErrorStatusUserUnauthorized
  | ErrorStatusVoteInvalid
  | ErrorStatusVoteChangesMax

datatype plugin_error = PluginUserError ErrorStatusT | InternalError string

datatype command =
    New nat string
  | Edit nat nat string
  | Del nat string
  | Vote nat VoteT

record cmd_payload =
  UserID :: string
  State :: StateT
  Token :: string
  PublicKey :: string
  Signature :: string
  Command :: command

text \<open>
  The policy constants of the plugin (\<open>comments.PolicyCommentLengthMax\<close>,
  \<open>comments.PolicyVoteChangesMax\<close>), which are not among the sources verified here,
  and the signature scheme of the identities (Ed25519), both as parameters.
\<close>

record policy =
  PolicyCommentLengthMax :: nat
  PolicyVoteChangesMax :: nat

record sigscheme =
  pk_ok :: "string \<Rightarrow> bool"
  sign :: "string \<Rightarrow> string \<Rightarrow> string"
  verify :: "string \<Rightarrow> string \<Rightarrow> string \<Rightarrow> bool"

text \<open>
  What the handlers read and write: which records the backend resolves for a state and a
  token, the comments of a record (the comment of identifier \<open>i\<close> is the element
  \<open>i - 1\<close>; a deleted comment stays, marked by its tombstone) and the votes cast on a
  comment by a user, oldest first.
\<close>

record comment =
  c_UserID :: string
  c_ParentID :: nat
  c_Comment :: string
  c_Deleted :: bool

record comments_state =
  recordExists :: "StateT \<Rightarrow> string \<Rightarrow> bool"
  comments_of :: "string \<Rightarrow> comment list"
  votes_of :: "string \<Rightarrow> nat \<Rightarrow> string \<Rightarrow> VoteT list"

text \<open>
  Modelled from the spec: the command handlers \<open>cmdNew\<close>, \<open>cmdEdit\<close>, \<open>cmdDel\<close> and
  \<open>cmdVote\<close> of the comments plugin are not among the sources verified here (their
  tests are). The spec: a handler decodes the payload; validates the signature over a
  canonical string (state + token + content-specific fields) using the provided public
  key; resolves the target record; enforces the plugin
  policy (max content length, max vote changes per user, authorization of the original
  author); on success persists the new object. A validation failure returns a
  \<open>PluginUserError\<close> with its code. Votes accumulate per user and comment, and the bound
  follows the loop of \<open>TestCmdVote\<close>: \<open>PolicyVoteChangesMax + 1\<close> casts succeed, the
  first vote and then the changes.
\<close>

fun itoa :: "nat \<Rightarrow> string" where
  "itoa n = (if n < 10 then [''0123456789'' ! n]
             else itoa (n div 10) @ [''0123456789'' ! (n mod 10)])"

declare itoa.simps [simp del]

fun state_str :: "StateT \<Rightarrow> string" where
  "state_str StateInvalid = ''0''"
| "state_str StateUnvetted = ''1''"
| "state_str StateVetted = ''2''"

fun vote_str :: "VoteT \<Rightarrow> string" where
  "vote_str VoteInvalid = ''0''"
| "vote_str VoteDownvote = ''-1''"
| "vote_str VoteUpvote = ''1''"

text \<open>
  Modelled from the spec: the content-specific fields that are signed, in the order in
  which the tests hand them to their signing helpers: comment and parentID for \<open>New\<close>
  and for \<open>Edit\<close> (whose commentID is not signed), reason and commentID for \<open>Del\<close>,
  commentID and vote for \<open>Vote\<close>.
\<close>

fun fields_str :: "command \<Rightarrow> string" where
  "fields_str (New parentID text) = text @ itoa parentID"
| "fields_str (Edit parentID commentID text) = text @ itoa parentID"
| "fields_str (Del commentID reason) = reason @ itoa commentID"
| "fields_str (Vote commentID v) = itoa commentID @ vote_str v"

text \<open>
  Modelled from the spec: the canonical string that is signed, state + token +
  content-specific fields, one after the other.
\<close>

definition canonical :: "StateT \<Rightarrow> string \<Rightarrow> command \<Rightarrow> string" where
  "canonical st tk cmd = state_str st @ tk @ fields_str cmd"

text \<open>
  Modelled from the spec: a token is the hex of a tree identifier, so a well-formed token
  is a non-empty string of hex digits.
\<close>

definition token_ok :: "string \<Rightarrow> bool" where
  "token_ok tk \<longleftrightarrow> tk \<noteq> [] \<and> list_all (\<lambda>c. c \<in> set ''0123456789abcdef'') tk"

text \<open>
  Modelled from the spec: the signature check of a handler, on the canonical string with
  the public key of the payload; a malformed key and a signature that does not verify
  have their own codes, as the test tables expect.
\<close>

definition verifySignature :: "sigscheme \<Rightarrow> cmd_payload \<Rightarrow> ErrorStatusT option" where
  "verifySignature sc p =
     (if \<not> pk_ok sc (PublicKey p) then Some ErrorStatusPublicKeyInvalid
      else if \<not> verify sc (PublicKey p) (canonical (State p) (Token p) (Command p)) (Signature p)
      then Some ErrorStatusSignatureInvalid
      else None)"

definition commentExists :: "comments_state \<Rightarrow> string \<Rightarrow> nat \<Rightarrow> bool" where
  "commentExists s tk commentID \<longleftrightarrow> 0 < commentID \<and> commentID \<le> length (comments_of s tk)"

definition getComment :: "comments_state \<Rightarrow> string \<Rightarrow> nat \<Rightarrow> comment" where
  "getComment s tk commentID = comments_of s tk ! (commentID - 1)"

text \<open>
  Modelled from the spec: resolving the target record, then the policy of each command.
  The codes are those the test tables expect for a payload with one defect.
\<close>

definition policy_check :: "policy \<Rightarrow> comments_state \<Rightarrow> cmd_payload \<Rightarrow> ErrorStatusT option" where
  "policy_check pol s p =
     (if \<not> recordExists s (State p) (Token p) then Some ErrorStatusRecordNotFound
      else case Command p of
        New parentID text \<Rightarrow>
          if length text > PolicyCommentLengthMax pol then Some ErrorStatusCommentTextInvalid
          else if parentID > 0 \<and> \<not> commentExists s (Token p) parentID
          then Some ErrorStatusParentIDInvalid
          else None
      | Edit parentID commentID text \<Rightarrow>
          if length text > PolicyCommentLengthMax pol then Some ErrorStatusCommentTextInvalid
          else if \<not> commentExists s (Token p) commentID then Some ErrorStatusCommentNotFound
          else if c_UserID (getComment s (Token p) commentID) \<noteq> UserID p
          then Some ErrorStatusUserUnauthorized
          else if c_ParentID (getComment s (Token p) commentID) \<noteq> parentID
          then Some ErrorStatusParentIDInvalid
          else if c_Comment (getComment s (Token p) commentID) = text
          then Some ErrorStatusCommentTextInvalid
          else None
      | Del commentID reason \<Rightarrow>
          if \<not> commentExists s (Token p) commentID then Some ErrorStatusCommentNotFound
          else None
      | Vote commentID v \<Rightarrow>
          if v = VoteInvalid then Some ErrorStatusVoteInvalid
          else if \<not> commentExists s (Token p) commentID then Some ErrorStatusCommentNotFound
          else if length (votes_of s (Token p) commentID (UserID p)) > PolicyVoteChangesMax pol
          then Some ErrorStatusVoteChangesMax
          else if c_UserID (getComment s (Token p) commentID) = UserID p
          then Some ErrorStatusVoteInvalid
          else None)"

text \<open>
  Modelled from the spec: what a successful command stores. A new comment takes the next
  identifier, an edit replaces the text, a deletion marks the comment with its tombstone
  and removes nothing, a vote is added to the votes of its user on the comment.
\<close>

definition persist :: "comments_state \<Rightarrow> cmd_payload \<Rightarrow> comments_state" where
  "persist s p =
     (case Command p of
        New parentID text \<Rightarrow>
          s\<lparr>comments_of := (comments_of s)
               (Token p := comments_of s (Token p) @
                  [\<lparr>c_UserID = UserID p, c_ParentID = parentID, c_Comment = text,
                    c_Deleted = False\<rparr>])\<rparr>
      | Edit parentID commentID text \<Rightarrow>
          s\<lparr>comments_of := (comments_of s)
               (Token p := (comments_of s (Token p))
                  [commentID - 1 := (getComment s (Token p) commentID)\<lparr>c_Comment := text\<rparr>])\<rparr>
      | Del commentID reason \<Rightarrow>
          s\<lparr>comments_of := (comments_of s)
               (Token p := (comments_of s (Token p))
                  [commentID - 1 := (getComment s (Token p) commentID)\<lparr>c_Deleted := True\<rparr>])\<rparr>
      | Vote commentID v \<Rightarrow>
          s\<lparr>votes_of := (votes_of s)
               (Token p := (votes_of s (Token p))
                  (commentID := (votes_of s (Token p) commentID)
                     (UserID p := votes_of s (Token p) commentID (UserID p) @ [v])))\<rparr>)"

text \<open>
  Modelled from the spec: a handler of the plugin. The decoded payload must name a valid
  state and a well-formed token; then the signature, the record and the policy are
  checked, and the command is persisted.
\<close>

definition execute ::
  "sigscheme \<Rightarrow> policy \<Rightarrow> comments_state \<Rightarrow> cmd_payload \<Rightarrow> plugin_error + comments_state" where
  "execute sc pol s p =
     (if State p \<noteq> StateUnvetted \<and> State p \<noteq> StateVetted
      then Inl (PluginUserError ErrorStatusStateInvalid)
      else if \<not> token_ok (Token p) then Inl (PluginUserError ErrorStatusTokenInvalid)
      else case verifySignature sc p of
        Some code \<Rightarrow> Inl (PluginUserError code)
      | None \<Rightarrow>
          (case policy_check pol s p of
             Some code \<Rightarrow> Inl (PluginUserError code)
           | None \<Rightarrow> Inr (persist s p)))"

text \<open>A sequence of commands, one after the other: the error of each, and the last state.\<close>

fun run ::
  "sigscheme \<Rightarrow> policy \<Rightarrow> comments_state \<Rightarrow> cmd_payload list \<Rightarrow>
   plugin_error option list \<times> comments_state" where
  "run sc pol s [] = ([], s)"
| "run sc pol s (p # ps) =
     (case execute sc pol s p of
        Inl err \<Rightarrow> (Some err # fst (run sc pol s ps), snd (run sc pol s ps))
      | Inr s' \<Rightarrow> (None # fst (run sc pol s' ps), snd (run sc pol s' ps)))"





text \<open>
  A vote of user \<open>u\<close> on the comment \<open>commentID\<close> of the record \<open>tk\<close> that passes every
  check but, possibly, the bound on vote changes.
\<close>

definition vote_valid_but_bound ::
  "sigscheme \<Rightarrow> comments_state \<Rightarrow> string \<Rightarrow> string \<Rightarrow> nat \<Rightarrow> cmd_payload \<Rightarrow> bool" where
  "vote_valid_but_bound sc s u tk commentID p \<longleftrightarrow>
     UserID p = u \<and> Token p = tk
     \<and> (Command p = Vote commentID VoteDownvote \<or> Command p = Vote commentID VoteUpvote)
     \<and> (State p = StateUnvetted \<or> State p = StateVetted) \<and> token_ok tk
     \<and> verifySignature sc p = None
     \<and> recordExists s (State p) tk
     \<and> commentExists s tk commentID
     \<and> c_UserID (getComment s tk commentID) \<noteq> u"

text \<open>
  A toy scheme (a signature is the key followed by the message), a policy of at most two
  vote changes, and a record \<open>ab12\<close> with one comment by alice.
\<close>

definition scheme0 :: sigscheme where
  "scheme0 = \<lparr>pk_ok = (\<lambda>k. k = ''K''), sign = (\<lambda>sk m. sk @ m), verify = (\<lambda>pk m sg. sg = pk @ m)\<rparr>"

definition policy0 :: policy where
  "policy0 = \<lparr>PolicyCommentLengthMax = 8000, PolicyVoteChangesMax = 2\<rparr>"

definition state0 :: comments_state where
  "state0 = \<lparr>recordExists = (\<lambda>st tk. st = StateUnvetted \<and> tk = ''ab12''),
             comments_of = (\<lambda>tk. if tk = ''ab12''
                                  then [\<lparr>c_UserID = ''alice'', c_ParentID = 0,
                                         c_Comment = ''hello'', c_Deleted = False\<rparr>]
                                  else []),
             votes_of = (\<lambda>tk commentID u. [])\<rparr>"

definition vote0 :: "VoteT \<Rightarrow> cmd_payload" where
  "vote0 v = \<lparr>UserID = ''bob'', State = StateUnvetted, Token = ''ab12'', PublicKey = ''K'',
              Signature = ''K'' @ canonical StateUnvetted ''ab12'' (Vote 1 v),
              Command = Vote 1 v\<rparr>"



definition casts0 :: "cmd_payload list" where
  "casts0 = [vote0 VoteDownvote, vote0 VoteUpvote, vote0 VoteDownvote, vote0 VoteUpvote]"

section \<open>Log client: results\<close>

lemma foldl_snoc_Some:
  "foldl (\<lambda>acc kv. acc @ [Some (snd kv)]) acc0 kvs = acc0 @ map (\<lambda>kv. Some (snd kv)) kvs"
  by (induction kvs arbitrary: acc0) simp_all

lemma treesAll_eq:
  "fst (treesAll t) = replicate (length (trees t)) None @ map (\<lambda>kv. Some (snd kv)) (trees t)"
  by (simp add: treesAll_def Let_def foldl_snoc_Some)

lemma append_loop_queued:
  "snd (append_loop H treeID index ls (t, q)) =
     q @ map (\<lambda>l. l\<lparr>LeafIndex := index, MerkleLeafHash := H (LeafValue l)\<rparr>) ls"
  by (induction ls arbitrary: t q) (simp_all add: Let_def)

lemma leavesAppend_same_index:
  "map LeafIndex (snd (leavesAppend H t treeID ls)) = replicate (length ls) (last_index t treeID)"
  by (simp add: leavesAppend_def append_loop_queued map_replicate_const o_def)

text \<open>
  C1 (the code departs from the claim). Two leaves appended in one batch to the empty tree
  1 should receive the indices 0 and 1; \<open>leavesAppend\<close> gives both the index 0, in the
  queued result and in the stored tree, because the loop never advances \<open>index\<close>.
\<close>

theorem leavesAppend_batch_repeats_index:
  "map LeafIndex (snd (leavesAppend H emptyClient 1 [mkLeaf [1], mkLeaf [2]])) = [0, 0]
   \<and> map LeafIndex (leaves_of (fst (leavesAppend H emptyClient 1 [mkLeaf [1], mkLeaf [2]])) 1) = [0, 0]"
  by (simp add: leavesAppend_def last_index_def leaves_of_def emptyClient_def mkLeaf_def Let_def)

text \<open>
  C10. For a client holding \<open>n\<close> trees, \<open>treesAll\<close> returns no error and a slice of
  length \<open>2 * n\<close>: its first \<open>n\<close> entries are nil, the trees of the map follow in the
  order of the iteration, and when \<open>n > 0\<close> the first entry a caller meets is nil.
\<close>

theorem treesAll_nil_prefix:
  assumes "wf_client t" and "n = length (trees t)"
  shows "snd (treesAll t) = None
       \<and> length (fst (treesAll t)) = 2 * n
       \<and> (\<forall>i<n. fst (treesAll t) ! i = None)
       \<and> (\<forall>i<n. fst (treesAll t) ! (n + i) = Some (snd (trees t ! i)))
       \<and> (0 < n \<longrightarrow> hd (fst (treesAll t)) = None)"
proof -
  have e: "fst (treesAll t) = replicate n None @ map (\<lambda>kv. Some (snd kv)) (trees t)"
    using assms(2) by (simp add: treesAll_eq)
  have "snd (treesAll t) = None" by (simp add: treesAll_def Let_def)
  moreover have "length (fst (treesAll t)) = 2 * n" using assms(2) by (simp add: e)
  moreover have "\<forall>i<n. fst (treesAll t) ! i = None" by (simp add: e nth_append)
  moreover have "\<forall>i<n. fst (treesAll t) ! (n + i) = Some (snd (trees t ! i))"
    using assms(2) by (simp add: e nth_append)
  moreover have "0 < n \<longrightarrow> hd (fst (treesAll t)) = None"
    by (cases n) (simp_all add: e)
  ultimately show ?thesis by blast
qed

theorem treesAll_nil_prefix_witness:
  "wf_client client1 \<and> length (fst (treesAll client1)) = 2
   \<and> fst (treesAll client1) ! 0 = None \<and> fst (treesAll client1) ! 1 = Some tree7"
proof -
  have w: "wf_client client1" by (simp add: client1_def wf_client_def)
  have n: "(1::nat) = length (trees client1)" by (simp add: client1_def)
  from treesAll_nil_prefix [OF w n] w show ?thesis by (simp add: client1_def)
qed

text \<open>
  C4 (the code departs from the claim). The tree 1 of \<open>client2\<close> holds one leaf, of index
  0, which lies in the requested range \<open>[0, 1)\<close>; \<open>leavesByRange\<close> returns the nil slice
  and no error.
\<close>

theorem leavesByRange_returns_nil:
  "map LeafIndex (leaves_of client2 1) = [0]
   \<and> in_range 0 1 (hd (leaves_of client2 1))
   \<and> leavesByRange client2 1 0 1 = Inr []"
  by (simp add: client2_def leavesAppend_def last_index_def leaves_of_def emptyClient_def
      mkLeaf_def Let_def leavesByRange_def in_range_def)

section \<open>Blob store: results\<close>

text \<open>
  C3 (the code departs from the claim). Asked for the keys \<open>k1\<close> and \<open>k2\<close> of a store
  that holds only \<open>k1\<close>, \<open>Get\<close> returns \<open>store.ErrNotFound\<close> and no map, where the
  contract wants the map with the entry of \<open>k1\<close> and no error.
\<close>

theorem Get_missing_key_is_error:
  "Get disk1 toolStore [''k1'', ''k2''] = Inl ErrNotFound"
  by (simp add: Get_def Get_body_def ReadFile_def disk1_def emptyDisk_def IsNotExist_def
      toolStore_def Join_def)

text \<open>
  C5, as the claim states it, fails: for one submitted blob \<open>Put\<close> returns no key.
\<close>

theorem Put_one_key_per_blob_counterexample:
  "length (fst (snd (Put emptyDisk toolStore [[1, 2, 3]]))) \<noteq> length [[1, 2, 3 :: byte]]"
  by (simp add: Put_def)

text \<open>
  C5, amended. \<open>Put\<close> of the tool's store is a stub: for every list of blobs it leaves
  the store as it is and returns the empty key list and no error, so that submitting the
  same blobs a second time returns the same (empty) key list.
\<close>

theorem Put_is_stub:
  "Put d f blobs = (d, [], None)
   \<and> fst (snd (Put (fst (Put d f blobs)) f blobs)) = fst (snd (Put d f blobs))"
  by (simp add: Put_def)

section \<open>Encryption key: results\<close>

text \<open>
  C6. When \<open>zero\<close> has returned, the key reference is nil and the 32 bytes it pointed to
  are zero; from then on every \<open>Encrypt\<close> aborts on the nil key and every \<open>Decrypt\<close>
  fails, with an error or by aborting, so that no call works with the zeroed bytes.
\<close>

theorem zero_makes_key_unusable:
  assumes "zero h e = Inr (h', e')"
  shows "key e' = None
       \<and> (\<exists>a. key e = Some a \<and> h' a = replicate (length (h a)) 0)
       \<and> (\<forall>version blob. Encrypt seal h' e' version blob = Inl Panic_NilDereference)
       \<and> (\<forall>packed. isl (Decrypt hdr_ok opn h' e' packed))"
proof -
  from assms obtain a where a: "key e = Some a" and h': "h' = h(a := Zero (h a))"
    and e': "e' = e\<lparr>key := None\<rparr>"
    by (auto simp: zero_def split: option.splits)
  have "key e' = None" by (simp add: e')
  moreover have "\<exists>a. key e = Some a \<and> h' a = replicate (length (h a)) 0"
    using a by (simp add: h' Zero_def)
  moreover have "\<forall>version blob. Encrypt seal h' e' version blob = Inl Panic_NilDereference"
    by (simp add: Encrypt_def sbox_Encrypt_def e')
  moreover have "\<forall>packed. isl (Decrypt hdr_ok opn h' e' packed)"
    by (simp add: Decrypt_def sbox_Decrypt_def e')
  ultimately show ?thesis by blast
qed

theorem zero_makes_key_unusable_witness:
  "zero heap0 (NewEncryptionKey (Some 0)) = Inr (heap0(0 := replicate 32 0), \<lparr>key = None\<rparr>)
   \<and> Encrypt seal0 (heap0(0 := replicate 32 0)) \<lparr>key = None\<rparr> 1 [1, 2, 3] = Inl Panic_NilDereference
   \<and> isl (Decrypt (\<lambda>b. True) opn0 (heap0(0 := replicate 32 0)) \<lparr>key = None\<rparr> [1, 2, 3])"
proof -
  have z: "zero heap0 (NewEncryptionKey (Some 0)) = Inr (heap0(0 := replicate 32 0), \<lparr>key = None\<rparr>)"
    by (simp add: zero_def NewEncryptionKey_def Zero_def heap0_def)
  from zero_makes_key_unusable [OF z, of seal0 "\<lambda>b. True" opn0] z show ?thesis
    by blast
qed

section \<open>Plugin inventory: results\<close>

lemma foldl_snoc_map: "foldl (\<lambda>acc v. acc @ [g v]) acc0 xs = acc0 @ map g xs"
  by (induction xs arbitrary: acc0) simp_all

lemma unat_retries: "k \<le> 1000 \<Longrightarrow> unat (of_nat k :: int64) = k"
  by (simp add: unat_of_nat)

lemma retries_eq_max: "k \<le> 1000 \<Longrightarrow> (of_nat k :: int64) = maxRetries \<longleftrightarrow> k = 1000"
proof -
  assume k: "k \<le> 1000"
  have "unat (of_nat k :: int64) = k" using k by (simp add: unat_of_nat)
  moreover have "unat (1000 :: int64) = 1000" by simp
  ultimately have "(of_nat k :: int64) = 1000 \<longleftrightarrow> k = 1000"
    by (metis of_nat_numeral)
  then show ?thesis by (simp add: maxRetries_def)
qed

lemma loop_done: "getPluginInventory_loop env r True ps sl = (Inr ps, sl)"
  by (simp add: getPluginInventory_loop.simps)

lemma loop_all_fail:
  "k \<le> 1000 \<Longrightarrow> (\<forall>j. k \<le> j \<and> j < 1000 \<longrightarrow> isl (env j)) \<Longrightarrow>
   getPluginInventory_loop env (of_nat k) False ps sl =
     (Inl MaxRetriesExceeded, sl @ replicate (1000 - k) sleepInterval)"
proof (induction "1000 - k" arbitrary: k sl)
  case 0
  then have "k = 1000" by simp
  then show ?case
    by (simp add: getPluginInventory_loop.simps [of env 1000] maxRetries_def)
next
  case (Suc d)
  then have k: "k < 1000" by simp
  then have ne: "(of_nat k :: int64) \<noteq> maxRetries" using retries_eq_max [of k] by simp
  from Suc.prems k have "isl (env k)" by simp
  then obtain err where err: "env k = Inl err" by (cases "env k") simp_all
  have step: "getPluginInventory_loop env (of_nat k) False ps sl =
        getPluginInventory_loop env (of_nat (Suc k)) False ps (sl @ [sleepInterval])"
    using ne err k
    by (subst getPluginInventory_loop.simps) (simp add: unat_retries add.commute)
  have "d = 1000 - Suc k" using Suc.hyps(2) by simp
  moreover have "Suc k \<le> 1000" using k by simp
  moreover have "\<forall>j. Suc k \<le> j \<and> j < 1000 \<longrightarrow> isl (env j)" using Suc.prems by simp
  ultimately have "getPluginInventory_loop env (of_nat (Suc k)) False ps (sl @ [sleepInterval]) =
     (Inl MaxRetriesExceeded, (sl @ [sleepInterval]) @ replicate (1000 - Suc k) sleepInterval)"
    by (rule Suc.hyps(1))
  moreover have "replicate (1000 - k) sleepInterval = sleepInterval # replicate (1000 - Suc k) sleepInterval"
    using k by (simp add: Suc_diff_Suc flip: replicate_Suc)
  ultimately show ?case using step by simp
qed

lemma loop_success:
  "m < 1000 \<Longrightarrow> k \<le> m \<Longrightarrow> (\<forall>j. k \<le> j \<and> j < m \<longrightarrow> isl (env j)) \<Longrightarrow> env m = Inr reply \<Longrightarrow>
   getPluginInventory_loop env (of_nat k) False ps sl =
     (Inr (ps @ map convertPluginFromPD reply), sl @ replicate (m - k) sleepInterval)"
proof (induction "m - k" arbitrary: k sl)
  case 0
  then have km: "k = m" by simp
  have ne: "(of_nat m :: int64) \<noteq> maxRetries" using retries_eq_max [of m] 0 by simp
  have "getPluginInventory_loop env (of_nat m) False ps sl =
        getPluginInventory_loop env (of_nat m + 1) True (ps @ map convertPluginFromPD reply) sl"
    using ne 0
    by (subst getPluginInventory_loop.simps) (simp add: unat_retries foldl_snoc_map)
  then show ?case using km by (simp add: loop_done)
next
  case (Suc d)
  then have k: "k < m" by simp
  then have k1000: "k < 1000" using Suc.prems by simp
  then have ne: "(of_nat k :: int64) \<noteq> maxRetries" using retries_eq_max [of k] by simp
  from Suc.prems k have "isl (env k)" by simp
  then obtain err where err: "env k = Inl err" by (cases "env k") simp_all
  have step: "getPluginInventory_loop env (of_nat k) False ps sl =
        getPluginInventory_loop env (of_nat (Suc k)) False ps (sl @ [sleepInterval])"
    using ne err k1000
    by (subst getPluginInventory_loop.simps) (simp add: unat_retries add.commute)
  have "d = m - Suc k" using Suc.hyps(2) by simp
  moreover note Suc.prems(1)
  moreover have "Suc k \<le> m" using k by simp
  moreover have "\<forall>j. Suc k \<le> j \<and> j < m \<longrightarrow> isl (env j)" using Suc.prems by simp
  moreover note Suc.prems(4)
  ultimately have "getPluginInventory_loop env (of_nat (Suc k)) False ps (sl @ [sleepInterval]) =
     (Inr (ps @ map convertPluginFromPD reply), (sl @ [sleepInterval]) @ replicate (m - Suc k) sleepInterval)"
    by (rule Suc.hyps(1))
  moreover have "replicate (m - k) sleepInterval = sleepInterval # replicate (m - Suc k) sleepInterval"
    using k by (simp add: Suc_diff_Suc flip: replicate_Suc)
  ultimately show ?case using step by simp
qed

text \<open>
  C9, as the claim states it, fails: when politeiad answers at the third call, the two
  sleeps before it both last 5 seconds, so the delay does not grow between retries.
\<close>

theorem getPluginInventory_backoff_counterexample:
  "snd (getPluginInventory env_third) = [sleepInterval, sleepInterval]
   \<and> \<not> backoff_grows (snd (getPluginInventory env_third))"
  by (simp add: getPluginInventory_def env_third_def maxRetries_def getPluginInventory_loop.simps)

text \<open>
  C9, amended. \<open>getPluginInventory\<close> tries at most 1000 times and sleeps the fixed
  interval of 5 seconds after each failure. When the first 1000 calls all fail it returns
  the error "max retries exceeded", having slept 1000 times; when the call number \<open>m\<close>
  (counted from 0, \<open>m < 1000\<close>) is the first to succeed it returns the converted plugin
  list, having slept \<open>m\<close> times.
\<close>

theorem getPluginInventory_bounded_fixed_interval:
  "((\<forall>j<1000. isl (env j)) \<longrightarrow>
      getPluginInventory env = (Inl MaxRetriesExceeded, replicate 1000 sleepInterval))
   \<and> (\<forall>m reply. m < 1000 \<and> (\<forall>j<m. isl (env j)) \<and> env m = Inr reply \<longrightarrow>
      getPluginInventory env = (Inr (map convertPluginFromPD reply), replicate m sleepInterval))"
proof (intro conjI impI allI)
  assume "\<forall>j<1000. isl (env j)"
  then have "\<forall>j. 0 \<le> j \<and> j < 1000 \<longrightarrow> isl (env j)" by simp
  with loop_all_fail [of 0 env "[]" "[]"]
  show "getPluginInventory env = (Inl MaxRetriesExceeded, replicate 1000 sleepInterval)"
    by (simp add: getPluginInventory_def)
next
  fix m reply
  assume a: "m < 1000 \<and> (\<forall>j<m. isl (env j)) \<and> env m = Inr reply"
  then have "\<forall>j. 0 \<le> j \<and> j < m \<longrightarrow> isl (env j)" by simp
  with a loop_success [of m 0 env reply "[]" "[]"]
  show "getPluginInventory env = (Inr (map convertPluginFromPD reply), replicate m sleepInterval)"
    by (simp add: getPluginInventory_def)
qed

theorem getPluginInventory_bounded_fixed_interval_witness:
  "getPluginInventory env_third =
     (Inr (map convertPluginFromPD inv0), [sleepInterval, sleepInterval])"
proof -
  have "(2::nat) < 1000 \<and> (\<forall>j<2. isl (env_third j)) \<and> env_third 2 = Inr inv0"
    by (simp add: env_third_def)
  with getPluginInventory_bounded_fixed_interval [of env_third]
  have "getPluginInventory env_third =
          (Inr (map convertPluginFromPD inv0), replicate 2 sleepInterval)"
    by blast
  then show ?thesis by (simp add: numeral_2_eq_2)
qed

section \<open>Bundle verification: results\<close>

lemma payload_digests_eq:
  "payload_digests L pls acc = Inr ds \<Longrightarrow> ds = acc @ map (payload_digest L) pls"
proof (induction pls arbitrary: acc)
  case Nil
  then show ?case by simp
next
  case (Cons pl pls)
  from Cons.prems obtain b where b: "DecodeString L pl = Inr b"
    and rest: "payload_digests L pls (acc @ [copy32 (Digest L b)]) = Inr ds"
    by (auto split: sum.splits)
  from Cons.IH [OF rest] b show ?case by (simp add: payload_digest_def)
qed

lemma files_loop_eq:
  "files_loop L fs acc = Inr ds \<Longrightarrow> ds = acc @ map (payload_digest L) (map f_Payload fs)"
proof (induction fs arbitrary: acc)
  case Nil
  then show ?case by simp
next
  case (Cons f fs)
  from Cons.prems obtain b where b: "DecodeString L (f_Payload f) = Inr b"
    and rest: "files_loop L fs (acc @ [copy32 (Digest L b)]) = Inr ds"
    by (auto simp: Let_def split: sum.splits prod.splits if_splits)
  from Cons.IH [OF rest] b show ?case by (simp add: payload_digest_def)
qed

lemma metadata_loop_eq:
  "metadata_loop L mds acc = Inr ds \<Longrightarrow> ds = acc @ map (payload_digest L) (map md_Payload mds)"
proof (induction mds arbitrary: acc)
  case Nil
  then show ?case by simp
next
  case (Cons md mds)
  from Cons.prems obtain b where b: "DecodeString L (md_Payload md) = Inr b"
    and rest: "metadata_loop L mds (acc @ [copy32 (Digest L b)]) = Inr ds"
    by (auto simp: Let_def split: sum.splits prod.splits if_splits)
  from Cons.IH [OF rest] b show ?case by (simp add: payload_digest_def)
qed

lemma merkleRoot_value:
  "merkleRoot L fs mds = Inr m \<Longrightarrow>
   \<exists>r. merkle_Root L (map (payload_digest L) (map f_Payload fs @ map md_Payload mds)) = Some r
      \<and> m = EncodeToString L r"
  by (auto simp: merkleRoot_def split: sum.splits option.splits
           dest!: files_loop_eq metadata_loop_eq)

lemma wwwutil_MerkleRoot_value:
  "wwwutil_MerkleRoot L fs mds = Inr m \<Longrightarrow>
   \<exists>r. merkle_Root L (map (payload_digest L) (map pf_Payload fs @ map pm_Payload mds)) = Some r
      \<and> m = EncodeToString L r"
  by (auto simp: wwwutil_MerkleRoot_def split: sum.splits option.splits
           dest!: payload_digests_eq)

lemma verifyProposal_accepts:
  assumes "verifyProposal L payload = None"
  shows "\<exists>pb. Unmarshal_proposal L payload = Inr pb
          \<and> merkle_matches L (map pf_Payload (p_Files pb) @ map pm_Payload (p_Metadata pb))
               (p_CensorshipRecord pb)
          \<and> server_signature_verifies L (p_ServerPublicKey pb) (p_CensorshipRecord pb)"
proof -
  from assms obtain pb where u: "Unmarshal_proposal L payload = Inr pb"
    by (auto simp: verifyProposal_def split: sum.splits)
  from assms u obtain merkle where m: "wwwutil_MerkleRoot L (p_Files pb) (p_Metadata pb) = Inr merkle"
    by (auto simp: verifyProposal_def split: sum.splits)
  from assms u m have eq: "merkle = cr_Merkle (p_CensorshipRecord pb)"
    by (auto simp: verifyProposal_def split: if_splits)
  from wwwutil_MerkleRoot_value [OF m] eq
  have a: "merkle_matches L (map pf_Payload (p_Files pb) @ map pm_Payload (p_Metadata pb))
               (p_CensorshipRecord pb)"
    by (auto simp: merkle_matches_def)
  from assms u m eq
  have b: "server_signature_verifies L (p_ServerPublicKey pb) (p_CensorshipRecord pb)"
    by (auto simp: verifyProposal_def server_signature_verifies_def
             split: sum.splits prod.splits if_splits)
  from u a b show ?thesis by blast
qed

lemma main_record_accepts:
  assumes "main_record L payload = None"
  shows "\<exists>rec. Unmarshal_record L payload = Inr rec
          \<and> merkle_matches L (map f_Payload (r_Files rec) @ map md_Payload (r_Metadata rec))
               (r_CensorshipRecord rec)
          \<and> server_signature_verifies L (r_ServerPublicKey rec) (r_CensorshipRecord rec)"
proof -
  from assms obtain rec where u: "Unmarshal_record L payload = Inr rec"
    by (auto simp: main_record_def split: sum.splits)
  from assms u obtain m where m: "merkleRoot L (r_Files rec) (r_Metadata rec) = Inr m"
    by (auto simp: main_record_def Let_def split: sum.splits)
  from assms u m have eq: "m = cr_Merkle (r_CensorshipRecord rec)"
    by (auto simp: main_record_def Let_def split: if_splits)
  from merkleRoot_value [OF m] eq
  have a: "merkle_matches L (map f_Payload (r_Files rec) @ map md_Payload (r_Metadata rec))
               (r_CensorshipRecord rec)"
    by (auto simp: merkle_matches_def)
  from assms u m eq
  have b: "server_signature_verifies L (r_ServerPublicKey rec) (r_CensorshipRecord rec)"
    by (auto simp: main_record_def Let_def server_signature_verifies_def
             split: sum.splits prod.splits if_splits)
  from u a b show ?thesis by blast
qed

text \<open>
  C2. A proposal bundle, and likewise a record bundle, is accepted (the verifier returns
  no error) only if the bundle decodes, the hex Merkle root recomputed over the digests of
  all its file and metadata payloads equals the censorship record's merkle field, and the
  censorship record's signature verifies on merkle followed by token under the server
  public key; put the other way round, a bundle that fails either check gets an error.
\<close>

theorem bundle_verification_checks:
  "(verifyProposal L payload = None \<longrightarrow>
      (\<exists>pb. Unmarshal_proposal L payload = Inr pb
          \<and> merkle_matches L (map pf_Payload (p_Files pb) @ map pm_Payload (p_Metadata pb))
               (p_CensorshipRecord pb)
          \<and> server_signature_verifies L (p_ServerPublicKey pb) (p_CensorshipRecord pb)))
   \<and> (main_record L payload = None \<longrightarrow>
      (\<exists>rb. Unmarshal_record L payload = Inr rb
          \<and> merkle_matches L (map f_Payload (r_Files rb) @ map md_Payload (r_Metadata rb))
               (r_CensorshipRecord rb)
          \<and> server_signature_verifies L (r_ServerPublicKey rb) (r_CensorshipRecord rb)))
   \<and> (\<forall>pb. Unmarshal_proposal L payload = Inr pb
          \<and> \<not> (merkle_matches L (map pf_Payload (p_Files pb) @ map pm_Payload (p_Metadata pb))
                  (p_CensorshipRecord pb)
               \<and> server_signature_verifies L (p_ServerPublicKey pb) (p_CensorshipRecord pb))
        \<longrightarrow> verifyProposal L payload \<noteq> None)
   \<and> (\<forall>rb. Unmarshal_record L payload = Inr rb
          \<and> \<not> (merkle_matches L (map f_Payload (r_Files rb) @ map md_Payload (r_Metadata rb))
                  (r_CensorshipRecord rb)
               \<and> server_signature_verifies L (r_ServerPublicKey rb) (r_CensorshipRecord rb))
        \<longrightarrow> main_record L payload \<noteq> None)"
proof (intro conjI impI allI)
  assume "verifyProposal L payload = None"
  then show "\<exists>pb. Unmarshal_proposal L payload = Inr pb
          \<and> merkle_matches L (map pf_Payload (p_Files pb) @ map pm_Payload (p_Metadata pb))
               (p_CensorshipRecord pb)
          \<and> server_signature_verifies L (p_ServerPublicKey pb) (p_CensorshipRecord pb)"
    by (rule verifyProposal_accepts)
next
  assume "main_record L payload = None"
  then show "\<exists>rb. Unmarshal_record L payload = Inr rb
          \<and> merkle_matches L (map f_Payload (r_Files rb) @ map md_Payload (r_Metadata rb))
               (r_CensorshipRecord rb)
          \<and> server_signature_verifies L (r_ServerPublicKey rb) (r_CensorshipRecord rb)"
    by (rule main_record_accepts)
next
  fix pb
  assume a: "Unmarshal_proposal L payload = Inr pb
          \<and> \<not> (merkle_matches L (map pf_Payload (p_Files pb) @ map pm_Payload (p_Metadata pb))
                  (p_CensorshipRecord pb)
               \<and> server_signature_verifies L (p_ServerPublicKey pb) (p_CensorshipRecord pb))"
  show "verifyProposal L payload \<noteq> None"
  proof
    assume "verifyProposal L payload = None"
    from verifyProposal_accepts [OF this] a show False by auto
  qed
next
  fix rb
  assume a: "Unmarshal_record L payload = Inr rb
          \<and> \<not> (merkle_matches L (map f_Payload (r_Files rb) @ map md_Payload (r_Metadata rb))
                  (r_CensorshipRecord rb)
               \<and> server_signature_verifies L (r_ServerPublicKey rb) (r_CensorshipRecord rb))"
  show "main_record L payload \<noteq> None"
  proof
    assume "main_record L payload = None"
    from main_record_accepts [OF this] a show False by auto
  qed
qed

theorem bundle_verification_checks_witness:
  "verifyProposal lib0 ''bundle'' = None \<and> main_record lib0 ''bundle'' = None
   \<and> merkle_matches lib0 [''a'', ''m''] (p_CensorshipRecord prop0)
   \<and> server_signature_verifies lib0 ''S'' (p_CensorshipRecord prop0)
   \<and> merkle_matches lib0 [''a'', ''m''] (r_CensorshipRecord rec0)
   \<and> server_signature_verifies lib0 ''S'' (r_CensorshipRecord rec0)"
proof -
  have vp: "verifyProposal lib0 ''bundle'' = None"
    by (simp add: verifyProposal_def lib0_def prop0_def wwwutil_MerkleRoot_def copy32_def)
  have mr: "main_record lib0 ''bundle'' = None"
    by (simp add: main_record_def lib0_def rec0_def merkleRoot_def copy32_def Let_def)
  have up: "Unmarshal_proposal lib0 ''bundle'' = Inr prop0" by (simp add: lib0_def)
  have ur: "Unmarshal_record lib0 ''bundle'' = Inr rec0" by (simp add: lib0_def)
  from bundle_verification_checks [of lib0 "''bundle''"] vp mr up ur
  have "merkle_matches lib0 (map pf_Payload (p_Files prop0) @ map pm_Payload (p_Metadata prop0))
               (p_CensorshipRecord prop0)
        \<and> server_signature_verifies lib0 (p_ServerPublicKey prop0) (p_CensorshipRecord prop0)
        \<and> merkle_matches lib0 (map f_Payload (r_Files rec0) @ map md_Payload (r_Metadata rec0))
               (r_CensorshipRecord rec0)
        \<and> server_signature_verifies lib0 (r_ServerPublicKey rec0) (r_CensorshipRecord rec0)"
    by auto
  then show ?thesis using vp mr by (simp add: prop0_def rec0_def)
qed

section \<open>Comments plugin: results\<close>

lemma policy_check_Signature [simp]:
  "policy_check pol s (p\<lparr>Signature := sg\<rparr>) = policy_check pol s p"
  by (simp add: policy_check_def split: command.splits)


lemma persist_votes_only:
  "Command p = Vote commentID v \<Longrightarrow>
   recordExists (persist s p) = recordExists s \<and> comments_of (persist s p) = comments_of s
   \<and> votes_of (persist s p) (Token p) commentID (UserID p) =
       votes_of s (Token p) commentID (UserID p) @ [v]"
  by (simp add: persist_def)
















lemma vote_step:
  assumes "vote_valid_but_bound sc s u tk commentID p"
  shows "execute sc pol s p =
           (if length (votes_of s tk commentID u) > PolicyVoteChangesMax pol
            then Inl (PluginUserError ErrorStatusVoteChangesMax)
            else Inr (persist s p))"
  using assms
  by (auto simp add: vote_valid_but_bound_def execute_def policy_check_def)

lemma vote_valid_persist:
  assumes "vote_valid_but_bound sc s u tk commentID q"
      and "vote_valid_but_bound sc s u tk commentID p"
  shows "vote_valid_but_bound sc (persist s p) u tk commentID q"
  using assms
  by (auto simp add: vote_valid_but_bound_def persist_def commentExists_def getComment_def)

lemma votes_persist:
  assumes "vote_valid_but_bound sc s u tk commentID p"
  shows "length (votes_of (persist s p) tk commentID u) = Suc (length (votes_of s tk commentID u))"
  using assms by (auto simp add: vote_valid_but_bound_def persist_def)

lemma run_votes_within_bound:
  "(\<forall>p \<in> set ps. vote_valid_but_bound sc s u tk commentID p) \<Longrightarrow>
   length (votes_of s tk commentID u) + length ps \<le> PolicyVoteChangesMax pol + 1 \<Longrightarrow>
   fst (run sc pol s ps) = replicate (length ps) None
   \<and> length (votes_of (snd (run sc pol s ps)) tk commentID u)
       = length (votes_of s tk commentID u) + length ps
   \<and> (\<forall>q. vote_valid_but_bound sc s u tk commentID q \<longrightarrow>
            vote_valid_but_bound sc (snd (run sc pol s ps)) u tk commentID q)"
proof (induction ps arbitrary: s)
  case Nil
  then show ?case by simp
next
  case (Cons p ps)
  from Cons.prems(1) have vp: "vote_valid_but_bound sc s u tk commentID p" by simp
  from Cons.prems(2) have "\<not> length (votes_of s tk commentID u) > PolicyVoteChangesMax pol"
    by simp
  with vote_step [OF vp, of pol] have ex: "execute sc pol s p = Inr (persist s p)" by simp
  have nxt: "\<forall>q \<in> set ps. vote_valid_but_bound sc (persist s p) u tk commentID q"
    using Cons.prems(1) vp by (simp add: vote_valid_persist)
  have len: "length (votes_of (persist s p) tk commentID u) + length ps \<le> PolicyVoteChangesMax pol + 1"
    using Cons.prems(2) votes_persist [OF vp] by simp
  note ih = Cons.IH [OF nxt len]
  have keep: "\<forall>q. vote_valid_but_bound sc s u tk commentID q \<longrightarrow>
            vote_valid_but_bound sc (snd (run sc pol (persist s p) ps)) u tk commentID q"
    using ih vp by (blast intro: vote_valid_persist)
  show ?case using ex ih keep votes_persist [OF vp] by simp
qed

lemma run_append:
  "run sc pol s (ps @ qs) =
     (fst (run sc pol s ps) @ fst (run sc pol (snd (run sc pol s ps)) qs),
      snd (run sc pol (snd (run sc pol s ps)) qs))"
  by (induction ps arbitrary: s) (simp_all split: sum.splits)

text \<open>
  C8. A user who has not yet voted on a comment casts \<open>PolicyVoteChangesMax + 2\<close> votes
  on it, each valid in every other respect: the first vote and the
  \<open>PolicyVoteChangesMax\<close> changes after it succeed, and the cast that would exceed the
  bound fails with the plugin user error \<open>VoteChangesMax\<close>; it is reported and not
  recorded, the comment keeping \<open>PolicyVoteChangesMax + 1\<close> votes of the user.
\<close>

theorem vote_changes_bound:
  assumes "\<forall>p \<in> set ps. vote_valid_but_bound sc s u tk commentID p"
      and "votes_of s tk commentID u = []"
      and "length ps = PolicyVoteChangesMax pol + 2"
  shows "fst (run sc pol s ps) =
           replicate (PolicyVoteChangesMax pol + 1) None
           @ [Some (PluginUserError ErrorStatusVoteChangesMax)]
       \<and> length (votes_of (snd (run sc pol s ps)) tk commentID u) = PolicyVoteChangesMax pol + 1"
proof -
  let ?n = "PolicyVoteChangesMax pol + 1"
  let ?front = "take ?n ps"
  let ?s1 = "snd (run sc pol s ?front)"
  from assms(3) have ne: "ps \<noteq> []" and lf: "length ?front = ?n" by auto
  have "butlast ps = ?front" using assms(3) by (simp add: butlast_conv_take)
  with append_butlast_last_id [OF ne] have ps: "ps = ?front @ [last ps]" by simp
  have fv: "\<forall>p \<in> set ?front. vote_valid_but_bound sc s u tk commentID p"
    using assms(1) by (auto dest: in_set_takeD)
  have "length (votes_of s tk commentID u) + length ?front \<le> PolicyVoteChangesMax pol + 1"
    using assms(2) lf by simp
  from run_votes_within_bound [OF fv this]
  have r1: "fst (run sc pol s ?front) = replicate ?n None"
    and l1: "length (votes_of ?s1 tk commentID u) = ?n"
    and k1: "\<forall>q. vote_valid_but_bound sc s u tk commentID q \<longrightarrow>
              vote_valid_but_bound sc ?s1 u tk commentID q"
    using assms(2) lf by simp_all
  have "vote_valid_but_bound sc s u tk commentID (last ps)" using assms(1) ne by simp
  with k1 have vl: "vote_valid_but_bound sc ?s1 u tk commentID (last ps)" by blast
  have el: "execute sc pol ?s1 (last ps) = Inl (PluginUserError ErrorStatusVoteChangesMax)"
    using vote_step [OF vl, of pol] l1 by simp
  have rl: "run sc pol ?s1 [last ps] = ([Some (PluginUserError ErrorStatusVoteChangesMax)], ?s1)"
    using el by simp
  have "run sc pol s ps = run sc pol s (?front @ [last ps])" using ps by simp
  also have "\<dots> = (replicate ?n None @ [Some (PluginUserError ErrorStatusVoteChangesMax)], ?s1)"
    by (simp only: run_append r1 rl fst_conv snd_conv)
  finally show ?thesis using l1 by simp
qed

theorem vote_changes_bound_witness:
  "fst (run scheme0 policy0 state0 casts0)
     = [None, None, None, Some (PluginUserError ErrorStatusVoteChangesMax)]
   \<and> length (votes_of (snd (run scheme0 policy0 state0 casts0)) ''ab12'' 1 ''bob'') = 3"
proof -
  have v: "vote_valid_but_bound scheme0 state0 ''bob'' ''ab12'' 1 (vote0 w)"
    if "w = VoteDownvote \<or> w = VoteUpvote" for w
    using that
    by (auto simp add: vote_valid_but_bound_def vote0_def state0_def scheme0_def token_ok_def
        verifySignature_def commentExists_def getComment_def)
  have a: "\<forall>p \<in> set casts0. vote_valid_but_bound scheme0 state0 ''bob'' ''ab12'' 1 p"
    using v by (simp add: casts0_def)
  have b: "votes_of state0 ''ab12'' 1 ''bob'' = []" by (simp add: state0_def)
  have c: "length casts0 = PolicyVoteChangesMax policy0 + 2" by (simp add: casts0_def policy0_def)
  from vote_changes_bound [OF a b c] show ?thesis
    by (simp add: policy0_def numeral_2_eq_2)
qed

end
